theory Spec2Isabelle
  imports Main "HOL-Library.Multiset"
begin

section \<open>Stock management: FIFO ledger, bounded alert journal, stacking order\<close>

text \<open>
  A shallow embedding of \<^verbatim>\<open>gestion_stock.py\<close> (class \<^verbatim>\<open>GestionnaireStock\<close>).
  Every method becomes a function on an explicit state; the leading underscore of the
  private methods is dropped, the names are otherwise those of the source. A method
  that can raise returns a sum, with the exception on the left. Python integers are
  \<open>int\<close>.
\<close>

subsection \<open>Characters and strings\<close>

text \<open>
  A Python \<^verbatim>\<open>str\<close> is a list of characters. The alphabet is the 256 code points below
  256, which covers every literal of the program (the accented letters of its messages
  are \<open>CHR 0xE9\<close> and \<open>CHR 0xC9\<close>), together with the two code points U+039C and U+0178:
  they are what \<^verbatim>\<open>str.upper()\<close> makes of U+00B5 and U+00FF, and with them the alphabet
  is closed under every string operation of the program. \<open>latin\<close> writes a literal.
\<close>

datatype pychar = Latin char | U_039C | U_0178

type_synonym pystr = "pychar list"

definition latin :: "string \<Rightarrow> pystr" where
  "latin s = map Latin s"

datatype py_error = KeyError | IndexError | ValueError

subsection \<open>Configuration\<close>

definition SEUIL_ALERTE :: nat where
  "SEUIL_ALERTE = 2"

definition MAX_LOG_SIZE :: nat where
  "MAX_LOG_SIZE = 3"

text \<open>
  The interpreter's limit on the number of decimal digits in a conversion between
  \<^verbatim>\<open>int\<close> and \<^verbatim>\<open>str\<close>, at its default value.
\<close>

definition INT_MAX_STR_DIGITS :: nat where
  "INT_MAX_STR_DIGITS = 4300"

subsection \<open>Built-in string operations used by the program\<close>

text \<open>
  \<^verbatim>\<open>str.upper()\<close> maps every character on its own: a..z to A..Z; U+00E0..U+00FE, without
  the division sign U+00F7, down by 32 as well; the sharp s U+00DF to the two letters
  SS; the micro sign U+00B5 to U+039C and U+00FF to U+0178. Every other character of
  the alphabet is its own upper case.
\<close>

definition upper_char :: "pychar \<Rightarrow> pystr" where
  "upper_char c =
     (case c of
        Latin a \<Rightarrow>
          (let n = (of_char a :: nat)
           in if 97 \<le> n \<and> n \<le> 122 then [Latin (char_of (n - 32))]
              else if n = 181 then [U_039C]
              else if n = 223 then [Latin CHR ''S'', Latin CHR ''S'']
              else if 224 \<le> n \<and> n \<le> 254 \<and> n \<noteq> 247 then [Latin (char_of (n - 32))]
              else if n = 255 then [U_0178]
              else [c])
      | U_039C \<Rightarrow> [U_039C]
      | U_0178 \<Rightarrow> [U_0178])"

definition upper :: "pystr \<Rightarrow> pystr" where
  "upper s = concat (map upper_char s)"

text \<open>
  \<^verbatim>\<open>str(n)\<close> and the f-string field \<^verbatim>\<open>{n}\<close> of an integer: the decimal digits of the
  absolute value, most significant first, after a minus sign when the integer is
  negative. With more than \<open>INT_MAX_STR_DIGITS\<close> digits the conversion raises
  \<^verbatim>\<open>ValueError\<close>.
\<close>

definition digit_char :: "nat \<Rightarrow> pychar" where
  "digit_char d = Latin (char_of (48 + d))"

fun str_nat :: "nat \<Rightarrow> pystr" where
  "str_nat n = (if n < 10 then [digit_char n] else str_nat (n div 10) @ [digit_char (n mod 10)])"

declare str_nat.simps [simp del]

definition py_str :: "int \<Rightarrow> py_error + pystr" where
  "py_str i =
     (let ds = str_nat (nat \<bar>i\<bar>)
      in if INT_MAX_STR_DIGITS < length ds then Inl ValueError
         else Inr (if i < 0 then Latin CHR ''-'' # ds else ds))"

text \<open>
  \<^verbatim>\<open>int(s)\<close> on a string, base 10. Python strips white space at both ends (the code
  points 9 to 13, 32, 133 and 160 of the alphabet), accepts one optional sign, then
  needs a digit 0..9, and after it digits in which single underscores may separate two
  digits; the digits, leading zeros included, may not be more than
  \<open>INT_MAX_STR_DIGITS\<close>. Anything else raises \<^verbatim>\<open>ValueError\<close>, which is the value \<open>None\<close>
  here.
\<close>

definition is_space :: "pychar \<Rightarrow> bool" where
  "is_space c =
     (case c of
        Latin a \<Rightarrow> of_char a \<in> {9, 10, 11, 12, 13, 32, 133, 160 :: nat}
      | U_039C \<Rightarrow> False
      | U_0178 \<Rightarrow> False)"

definition is_digit :: "pychar \<Rightarrow> bool" where
  "is_digit c =
     (case c of
        Latin a \<Rightarrow> 48 \<le> (of_char a :: nat) \<and> (of_char a :: nat) \<le> 57
      | U_039C \<Rightarrow> False
      | U_0178 \<Rightarrow> False)"

definition digit_val :: "pychar \<Rightarrow> nat" where
  "digit_val c = (case c of Latin a \<Rightarrow> of_char a - 48 | U_039C \<Rightarrow> 0 | U_0178 \<Rightarrow> 0)"

fun digits_value :: "nat \<Rightarrow> pystr \<Rightarrow> nat option" where
  "digits_value acc [] = Some acc"
| "digits_value acc (c # cs) =
     (if is_digit c then digits_value (acc * 10 + digit_val c) cs
      else if c = Latin CHR ''_'' \<and> cs \<noteq> [] \<and> is_digit (hd cs) then digits_value acc cs
      else None)"

definition unsigned_value :: "pystr \<Rightarrow> nat option" where
  "unsigned_value s =
     (if s \<noteq> [] \<and> is_digit (hd s) \<and> length (filter is_digit s) \<le> INT_MAX_STR_DIGITS
      then digits_value 0 s
      else None)"

definition strip :: "pystr \<Rightarrow> pystr" where
  "strip s = rev (dropWhile is_space (rev (dropWhile is_space s)))"

definition py_int :: "pystr \<Rightarrow> int option" where
  "py_int s =
     (case strip s of
        [] \<Rightarrow> None
      | c # cs \<Rightarrow>
          if c = Latin CHR ''-'' then map_option (\<lambda>n. - int n) (unsigned_value cs)
          else if c = Latin CHR ''+'' then map_option int (unsigned_value cs)
          else map_option int (unsigned_value (c # cs)))"

text \<open>
  \<^verbatim>\<open>needle in haystack\<close> on strings: the needle occurs as a contiguous block.
\<close>

fun starts_with :: "pystr \<Rightarrow> pystr \<Rightarrow> bool" where
  "starts_with [] s = True"
| "starts_with (c # cs) [] = False"
| "starts_with (c # cs) (d # ds) = (c = d \<and> starts_with cs ds)"

fun py_in :: "pystr \<Rightarrow> pystr \<Rightarrow> bool" where
  "py_in needle [] = (needle = [])"
| "py_in needle (c # cs) = (starts_with needle (c # cs) \<or> py_in needle cs)"

subsection \<open>Level 3 helpers: keys\<close>

text \<open>
  The f-string \<^verbatim>\<open>{type_p.upper()}{vol}\<close>: the upper-cased tag followed by the decimal
  digits of the volume; the conversion of the volume can raise.
\<close>

definition generer_cle_unique :: "pystr \<Rightarrow> int \<Rightarrow> py_error + pystr" where
  "generer_cle_unique type_p vol =
     (case py_str vol of
        Inl e \<Rightarrow> Inl e
      | Inr digits \<Rightarrow> Inr (upper type_p @ digits))"

text \<open>
  \<^verbatim>\<open>int(cle[1:])\<close>; the slice never raises, a \<^verbatim>\<open>ValueError\<close> of the conversion is caught
  and gives 0.
\<close>

definition extraire_volume_cle :: "pystr \<Rightarrow> int" where
  "extraire_volume_cle cle = (case py_int (drop 1 cle) of Some v \<Rightarrow> v | None \<Rightarrow> 0)"

subsection \<open>Bounded double-ended queues\<close>

text \<open>
  \<^verbatim>\<open>collections.deque\<close> with \<^verbatim>\<open>maxlen\<close>. \<^verbatim>\<open>append\<close> adds at the right end and, when the
  length then exceeds \<^verbatim>\<open>maxlen\<close>, discards one item from the left end. Python does not
  hand the discarded item back; the model returns it as a second component so that
  what the queue lost can be compared with what the program archived.
  \<^verbatim>\<open>deque(iterable, maxlen)\<close> appends the items of the iterable one by one.
\<close>

definition deque_append :: "nat \<Rightarrow> 'a list \<Rightarrow> 'a \<Rightarrow> 'a list \<times> 'a list" where
  "deque_append maxlen d x =
     (if maxlen = 0 then (d, [x])
      else if maxlen < length (d @ [x]) then (tl (d @ [x]), [hd (d @ [x])])
      else (d @ [x], []))"

fun deque_extend :: "nat \<Rightarrow> 'a list \<Rightarrow> 'a list \<Rightarrow> 'a list \<times> 'a list" where
  "deque_extend maxlen d [] = (d, [])"
| "deque_extend maxlen d (x # xs) =
     (let (d1, out1) = deque_append maxlen d x;
          (d2, out2) = deque_extend maxlen d1 xs
      in (d2, out1 @ out2))"

subsection \<open>State\<close>

datatype level = INFO | WARNING | ERROR

text \<open>
  \<open>stock\<close> and \<open>journal_alertes\<close> are the two attributes of the object. The other
  fields are the world around it: \<open>archive\<close> holds the strings written to the archive
  file, in order; \<open>app_log\<close> the records handed to \<^verbatim>\<open>logging\<close>; \<open>io_errors\<close> says, for
  each coming attempt to write the archive file, whether it raises \<^verbatim>\<open>IOError\<close> (an
  exhausted list means the write goes through; a write either appends its whole line
  or nothing). \<open>evicted\<close> is a history variable: the items the bounded journal has
  discarded, in order. No function of the program reads it.
\<close>

record gestionnaire =
  stock :: "pystr \<rightharpoonup> int list"
  journal_alertes :: "pystr list"
  archive :: "pystr list"
  app_log :: "(level \<times> pystr) list"
  io_errors :: "bool list"
  evicted :: "pystr list"

definition init :: "bool list \<Rightarrow> gestionnaire" where
  "init io =
     \<lparr>stock = Map.empty, journal_alertes = [], archive = [], app_log = [],
      io_errors = io, evicted = []\<rparr>"

subsection \<open>Level 3 helpers: availability, journal, archive\<close>

definition est_disponible :: "gestionnaire \<Rightarrow> pystr \<Rightarrow> bool" where
  "est_disponible s cle = (case stock s cle of None \<Rightarrow> False | Some d \<Rightarrow> 0 < length d)"

definition ligne_archive :: "pystr \<Rightarrow> pystr" where
  "ligne_archive message = latin ''[ARCHIVE] '' @ message @ [Latin (CHR 0x0A)]"

definition archiver_sur_disque :: "gestionnaire \<Rightarrow> pystr \<Rightarrow> gestionnaire" where
  "archiver_sur_disque s message =
     (case io_errors s of
        [] \<Rightarrow> s\<lparr>archive := archive s @ [ligne_archive message]\<rparr>
      | failing # rest \<Rightarrow>
          if failing
          then s\<lparr>io_errors := rest,
                 app_log := app_log s @
                   [(ERROR, [Latin (CHR 0xC9)] @ latin ''chec critique : Impossible d'' @
                            [Latin (CHR 0x27), Latin (CHR 0xE9)] @
                            latin ''crire sur le disque.'')]\<rparr>
          else s\<lparr>io_errors := rest, archive := archive s @ [ligne_archive message]\<rparr>)"

definition enregistrer_dans_log :: "gestionnaire \<Rightarrow> pystr \<Rightarrow> gestionnaire" where
  "enregistrer_dans_log s message =
     (let s1 = (if length (journal_alertes s) = MAX_LOG_SIZE
                then archiver_sur_disque s (journal_alertes s ! 0)
                else s);
          (d, out) = deque_append MAX_LOG_SIZE (journal_alertes s1) message
      in s1\<lparr>journal_alertes := d, evicted := evicted s1 @ out\<rparr>)"

definition nettoyer_alerte_resolue :: "gestionnaire \<Rightarrow> pystr \<Rightarrow> gestionnaire" where
  "nettoyer_alerte_resolue s cle =
     (let liste_filtr = filter (\<lambda>a. \<not> py_in cle a) (journal_alertes s);
          (d, out) = deque_extend MAX_LOG_SIZE [] liste_filtr
      in s\<lparr>journal_alertes := d, evicted := evicted s @ out\<rparr>)"

subsection \<open>Group 1: receipts\<close>

text \<open>
  \<open>stock_get s cle\<close> is the expression \<^verbatim>\<open>self.stock.get(cle, [])\<close> and \<open>qte_actuelle\<close> its
  length, the local variable of that name in \<^verbatim>\<open>_gerer_alerte_seuil\<close>.
\<close>

definition stock_get :: "gestionnaire \<Rightarrow> pystr \<Rightarrow> int list" where
  "stock_get s cle = (case stock s cle of None \<Rightarrow> [] | Some d \<Rightarrow> d)"

definition qte_actuelle :: "gestionnaire \<Rightarrow> pystr \<Rightarrow> nat" where
  "qte_actuelle s cle = length (stock_get s cle)"

text \<open>
  The alert message is an f-string with the key and the quantity as fields;
  \<open>texte_alerte\<close> is its text once the quantity has been converted.
\<close>

definition texte_alerte :: "pystr \<Rightarrow> pystr \<Rightarrow> pystr" where
  "texte_alerte cle qte =
     latin ''ALERTE: Stock critique pour '' @ cle @ latin '' (Qt'' @ [Latin (CHR 0xE9)] @
     latin '': '' @ qte @ latin '')''"

definition message_alerte :: "pystr \<Rightarrow> nat \<Rightarrow> py_error + pystr" where
  "message_alerte cle qte =
     (case py_str (int qte) of
        Inl e \<Rightarrow> Inl e
      | Inr digits \<Rightarrow> Inr (texte_alerte cle digits))"

definition gerer_alerte_seuil :: "gestionnaire \<Rightarrow> pystr \<Rightarrow> py_error + gestionnaire" where
  "gerer_alerte_seuil s cle =
     (if SEUIL_ALERTE < qte_actuelle s cle
      then Inr (nettoyer_alerte_resolue s cle)
      else (case message_alerte cle (qte_actuelle s cle) of
              Inl e \<Rightarrow> Inl e
            | Inr msg \<Rightarrow> Inr (enregistrer_dans_log s msg)))"

text \<open>
  The key is generated first, before anything is changed. A key not yet in the
  dictionary first gets an empty queue; the volume is then appended at the right end of
  the key's queue.
\<close>

definition ajouter_au_stock ::
  "gestionnaire \<Rightarrow> pystr \<Rightarrow> int \<Rightarrow> py_error + pystr \<times> gestionnaire" where
  "ajouter_au_stock s type_p vol =
     (case generer_cle_unique type_p vol of
        Inl e \<Rightarrow> Inl e
      | Inr cle \<Rightarrow>
          (let d = (case stock s cle of None \<Rightarrow> [] | Some d \<Rightarrow> d)
           in Inr (cle, s\<lparr>stock := (stock s)(cle \<mapsto> d @ [vol])\<rparr>)))"

definition traiter_ajout_produit ::
  "gestionnaire \<Rightarrow> pystr \<Rightarrow> int \<Rightarrow> py_error + gestionnaire" where
  "traiter_ajout_produit s type_p volume =
     (case ajouter_au_stock s type_p volume of
        Inl e \<Rightarrow> Inl e
      | Inr (cle_produit, s1) \<Rightarrow>
          (case gerer_alerte_seuil s1 cle_produit of
             Inl e \<Rightarrow> Inl e
           | Inr s2 \<Rightarrow>
               Inr (s2\<lparr>app_log := app_log s2 @
                      [(INFO, latin ''Transaction termin'' @ [Latin (CHR 0xE9)] @
                              latin ''e pour '' @ cle_produit)]\<rparr>)))"

subsection \<open>Group 2: orders\<close>

text \<open>
  \<^verbatim>\<open>self.stock[cle].popleft()\<close>: the subscript raises \<^verbatim>\<open>KeyError\<close> on a missing key and
  \<^verbatim>\<open>popleft\<close> raises \<^verbatim>\<open>IndexError\<close> on an empty queue; otherwise the head of the queue is
  removed and returned.
\<close>

definition stock_popleft :: "gestionnaire \<Rightarrow> pystr \<Rightarrow> py_error + int \<times> gestionnaire" where
  "stock_popleft s cle =
     (case stock s cle of
        None \<Rightarrow> Inl KeyError
      | Some d \<Rightarrow>
          (case d of
             [] \<Rightarrow> Inl IndexError
           | v # d' \<Rightarrow> Inr (v, s\<lparr>stock := (stock s)(cle \<mapsto> d')\<rparr>)))"

definition message_rupture :: "pystr \<Rightarrow> pystr" where
  "message_rupture cle = latin ''RUPTURE: '' @ cle @ latin '' manquant (Mis en Backorder)''"

text \<open>
  The loop of \<^verbatim>\<open>_recuperer_produits\<close>, with the list built so far as an argument. The
  value returned by \<^verbatim>\<open>popleft\<close> is dropped: the key is what goes into the result.
\<close>

fun recuperer_boucle ::
  "gestionnaire \<Rightarrow> pystr list \<Rightarrow> pystr list \<Rightarrow> py_error + pystr list \<times> gestionnaire" where
  "recuperer_boucle s produits_trouves [] = Inr (produits_trouves, s)"
| "recuperer_boucle s produits_trouves (cle # reste) =
     (if est_disponible s cle
      then (case stock_popleft s cle of
              Inl e \<Rightarrow> Inl e
            | Inr (v, s1) \<Rightarrow>
                (case gerer_alerte_seuil s1 cle of
                   Inl e \<Rightarrow> Inl e
                 | Inr s2 \<Rightarrow> recuperer_boucle s2 (produits_trouves @ [cle]) reste))
      else recuperer_boucle (s\<lparr>app_log := app_log s @ [(WARNING, message_rupture cle)]\<rparr>)
             produits_trouves reste)"

definition recuperer_produits ::
  "gestionnaire \<Rightarrow> pystr list \<Rightarrow> py_error + pystr list \<times> gestionnaire" where
  "recuperer_produits s liste_cles = recuperer_boucle s [] liste_cles"

text \<open>
  \<^verbatim>\<open>list.sort(key=..., reverse=True)\<close>: Python reverses the list, sorts it stably in
  ascending order of the key, and reverses the result.
\<close>

definition sort_reverse :: "('a \<Rightarrow> int) \<Rightarrow> 'a list \<Rightarrow> 'a list" where
  "sort_reverse key xs = rev (sort_key key (rev xs))"

definition trier_produits_volume :: "pystr list \<Rightarrow> pystr list" where
  "trier_produits_volume produits =
     (let temp_list = map (\<lambda>p. (extraire_volume_cle p, p)) produits
      in map snd (sort_reverse fst temp_list))"

definition traiter_commande_colis ::
  "gestionnaire \<Rightarrow> pystr list \<Rightarrow> py_error + pystr list \<times> gestionnaire" where
  "traiter_commande_colis s commande =
     (case recuperer_produits s commande of
        Inl e \<Rightarrow> Inl e
      | Inr (produits_bruts, s1) \<Rightarrow> Inr (trier_produits_volume produits_bruts, s1))"

subsection \<open>Runs\<close>

text \<open>
  A run is a sequence of calls on one object, starting from the freshly constructed
  one. The only exception a call can raise is the \<^verbatim>\<open>ValueError\<close> of a receipt whose
  volume has too many digits; it is raised when the key is generated, before any
  attribute is touched, so the object is then as it was before the call, and the
  caller may go on with it, as the driver of the source does.
\<close>

datatype operation =
    Record pystr
  | Resolve pystr
  | Receive pystr int
  | Fulfill "pystr list"

fun apply_operation :: "gestionnaire \<Rightarrow> operation \<Rightarrow> py_error + gestionnaire" where
  "apply_operation s (Record message) = Inr (enregistrer_dans_log s message)"
| "apply_operation s (Resolve cle) = Inr (nettoyer_alerte_resolue s cle)"
| "apply_operation s (Receive type_p volume) = traiter_ajout_produit s type_p volume"
| "apply_operation s (Fulfill commande) = map_sum id snd (traiter_commande_colis s commande)"

fun run :: "gestionnaire \<Rightarrow> operation list \<Rightarrow> gestionnaire" where
  "run s [] = s"
| "run s (operation # operations) =
     (case apply_operation s operation of
        Inl e \<Rightarrow> run s operations
      | Inr s1 \<Rightarrow> run s1 operations)"

section \<open>Properties\<close>

subsection \<open>Decimal conversion\<close>



















lemma py_str_Inl_iff:
  "py_str v = Inl e \<longleftrightarrow> e = ValueError \<and> INT_MAX_STR_DIGITS < length (str_nat (nat \<bar>v\<bar>))"
  by (auto simp: py_str_def Let_def)


lemma py_str_small: "n < 10 \<Longrightarrow> py_str (int n) = Inr [digit_char n]"
  by (simp add: py_str_def Let_def str_nat.simps INT_MAX_STR_DIGITS_def)






subsection \<open>Substring test\<close>

lemma starts_with_iff: "starts_with n h \<longleftrightarrow> (\<exists>suf. h = n @ suf)"
  by (induction n h rule: starts_with.induct) auto

lemma py_in_iff: "py_in n h \<longleftrightarrow> (\<exists>pre suf. h = pre @ n @ suf)"
proof (induction h)
  case Nil
  then show ?case by auto
next
  case (Cons c cs)
  show ?case
  proof
    assume "py_in n (c # cs)"
    then consider "starts_with n (c # cs)" | "py_in n cs" by auto
    then show "\<exists>pre suf. c # cs = pre @ n @ suf"
    proof cases
      case 1
      then obtain suf where "c # cs = n @ suf" by (auto simp: starts_with_iff)
      then have "c # cs = [] @ n @ suf" by simp
      then show ?thesis by blast
    next
      case 2
      then obtain pre suf where "cs = pre @ n @ suf" using Cons by auto
      then have "c # cs = (c # pre) @ n @ suf" by simp
      then show ?thesis by blast
    qed
  next
    assume "\<exists>pre suf. c # cs = pre @ n @ suf"
    then obtain pre suf where eq: "c # cs = pre @ n @ suf" by blast
    show "py_in n (c # cs)"
    proof (cases pre)
      case Nil
      with eq have "starts_with n (c # cs)" by (auto simp: starts_with_iff)
      then show ?thesis by simp
    next
      case (Cons p ps)
      with eq have "cs = ps @ n @ suf" by simp
      then have "py_in n cs" using Cons.IH by blast
      then show ?thesis by simp
    qed
  qed
qed

subsection \<open>Keys\<close>

text \<open>
  The upper case at the edges of each range of the table.
\<close>

lemma majuscules_limites:
  "upper (latin ''az`{'') = latin ''AZ`{'' \<and>
   upper [Latin (CHR 0xE0), Latin (CHR 0xF6), Latin (CHR 0xF7), Latin (CHR 0xF8), Latin (CHR 0xFE)] =
     [Latin (CHR 0xC0), Latin (CHR 0xD6), Latin (CHR 0xF7), Latin (CHR 0xD8), Latin (CHR 0xDE)] \<and>
   upper [Latin (CHR 0xB5), Latin (CHR 0xDF), Latin (CHR 0xFF)] =
     [U_039C, Latin CHR ''S'', Latin CHR ''S'', U_0178] \<and>
   upper [Latin (CHR 0xAA), Latin (CHR 0xBA), Latin (CHR 0xD7), U_039C, U_0178] =
     [Latin (CHR 0xAA), Latin (CHR 0xBA), Latin (CHR 0xD7), U_039C, U_0178]"
  by code_simp


lemma generer_cle_Inl_iff:
  "generer_cle_unique t v = Inl e \<longleftrightarrow>
     e = ValueError \<and> INT_MAX_STR_DIGITS < length (str_nat (nat \<bar>v\<bar>))"
  using py_str_Inl_iff [of v e]
  by (auto simp: generer_cle_unique_def split: sum.splits)








text \<open>
  Two more keys at the edge of the round trip. The upper case of the sharp s is SS, two
  characters, so the key of that tag with volume 5 is SS5 and its parsed volume is 0.
  The code point 28 is not white space for the integer conversion, so a key with it
  before the digit has parsed volume 0, while one with the no-break space 160 there
  has the volume of the digit.
\<close>

lemma cles_limites:
  "generer_cle_unique [Latin (CHR 0xDF)] 5 = Inr (latin ''SS5'') \<and>
   extraire_volume_cle (latin ''SS5'') = 0 \<and>
   extraire_volume_cle (latin ''A'' @ [Latin (CHR 0x1C)] @ latin ''5'') = 0 \<and>
   extraire_volume_cle (latin ''A'' @ [Latin (CHR 0xA0)] @ latin ''5'') = 5 \<and>
   generer_cle_unique [Latin (CHR 0xFF)] 5 = Inr [U_0178, Latin CHR ''5''] \<and>
   extraire_volume_cle [U_0178, Latin CHR ''5''] = 5"
  by code_simp

text \<open>
  C9. Key derivation is not injective: the distinct pairs (A1, 2) and (A, 12) both
  derive the key A12, so receiving one unit of each appends the two different volumes
  2 and 12 to one and the same queue. Availability, quantity and alert evaluation take
  the key alone as their argument.
\<close>

theorem cle_non_injective:
  "(latin ''A1'', 2 :: int) \<noteq> (latin ''A'', 12) \<and>
   generer_cle_unique (latin ''A1'') 2 = Inr (latin ''A12'') \<and>
   generer_cle_unique (latin ''A'') 12 = Inr (latin ''A12'') \<and>
   (\<exists>s1 s2. ajouter_au_stock s (latin ''A1'') 2 = Inr (latin ''A12'', s1) \<and>
            ajouter_au_stock s1 (latin ''A'') 12 = Inr (latin ''A12'', s2) \<and>
            stock s2 (latin ''A12'') = Some (stock_get s (latin ''A12'') @ [2, 12]))"
proof -
  have k1: "generer_cle_unique (latin ''A1'') 2 = Inr (latin ''A12'')" by code_simp
  have k2: "generer_cle_unique (latin ''A'') 12 = Inr (latin ''A12'')" by code_simp
  have d: "latin ''A1'' \<noteq> latin ''A''" by (simp add: latin_def)
  show ?thesis
    using d by (simp add: k1 k2 ajouter_au_stock_def stock_get_def Let_def split: option.split)
qed

subsection \<open>Bounded queues\<close>

lemma deque_append_below:
  "length d < maxlen \<Longrightarrow> deque_append maxlen d x = (d @ [x], [])"
  by (simp add: deque_append_def)

lemma deque_append_full:
  "0 < maxlen \<Longrightarrow> maxlen \<le> length d \<Longrightarrow> deque_append maxlen d x = (tl d @ [x], [d ! 0])"
  by (cases d) (simp_all add: deque_append_def)

lemma deque_extend_fits:
  "length d + length xs \<le> maxlen \<Longrightarrow> deque_extend maxlen d xs = (d @ xs, [])"
  by (induction xs arbitrary: d) (simp_all add: deque_append_below)

subsection \<open>What each helper leaves alone\<close>

lemma archiver_fields [simp]:
  "stock (archiver_sur_disque s m) = stock s"
  "journal_alertes (archiver_sur_disque s m) = journal_alertes s"
  "evicted (archiver_sur_disque s m) = evicted s"
  by (simp_all add: archiver_sur_disque_def split: list.split)

lemma archiver_no_fault:
  "True \<notin> set (io_errors s) \<Longrightarrow>
     archive (archiver_sur_disque s m) = archive s @ [ligne_archive m] \<and>
     True \<notin> set (io_errors (archiver_sur_disque s m))"
  by (auto simp: archiver_sur_disque_def split: list.split)

lemma enregistrer_stock [simp]: "stock (enregistrer_dans_log s m) = stock s"
  by (simp add: enregistrer_dans_log_def Let_def split: prod.split)

lemma nettoyer_stock [simp]: "stock (nettoyer_alerte_resolue s k) = stock s"
  by (simp add: nettoyer_alerte_resolue_def Let_def split: prod.split)

lemma nettoyer_env [simp]:
  "archive (nettoyer_alerte_resolue s k) = archive s"
  "io_errors (nettoyer_alerte_resolue s k) = io_errors s"
  "app_log (nettoyer_alerte_resolue s k) = app_log s"
  by (simp_all add: nettoyer_alerte_resolue_def Let_def split: prod.split)

lemma enregistrer_below:
  "length (journal_alertes s) < MAX_LOG_SIZE \<Longrightarrow>
     enregistrer_dans_log s m = s\<lparr>journal_alertes := journal_alertes s @ [m]\<rparr>"
  by (simp add: enregistrer_dans_log_def deque_append_below)

lemma enregistrer_full:
  "length (journal_alertes s) = MAX_LOG_SIZE \<Longrightarrow>
     enregistrer_dans_log s m =
       (archiver_sur_disque s (journal_alertes s ! 0))
         \<lparr>journal_alertes := tl (journal_alertes s) @ [m],
          evicted := evicted s @ [journal_alertes s ! 0]\<rparr>"
  by (simp add: enregistrer_dans_log_def deque_append_full MAX_LOG_SIZE_def)

lemma nettoyer_bounded:
  "length (journal_alertes s) \<le> MAX_LOG_SIZE \<Longrightarrow>
     nettoyer_alerte_resolue s k =
       s\<lparr>journal_alertes := filter (\<lambda>a. \<not> py_in k a) (journal_alertes s)\<rparr>"
proof -
  assume a: "length (journal_alertes s) \<le> MAX_LOG_SIZE"
  have "length (filter (\<lambda>a. \<not> py_in k a) (journal_alertes s)) \<le> MAX_LOG_SIZE"
    by (rule order_trans [OF length_filter_le a])
  then have "length ([] :: pystr list) +
      length (filter (\<lambda>a. \<not> py_in k a) (journal_alertes s)) \<le> MAX_LOG_SIZE"
    by simp
  then have "deque_extend MAX_LOG_SIZE [] (filter (\<lambda>a. \<not> py_in k a) (journal_alertes s)) =
     ([] @ filter (\<lambda>a. \<not> py_in k a) (journal_alertes s), [])"
    by (rule deque_extend_fits)
  then show ?thesis by (simp add: nettoyer_alerte_resolue_def)
qed

subsection \<open>The threshold check never raises\<close>

text \<open>
  The quantity is converted to text only when it is at most \<open>SEUIL_ALERTE\<close>, so it has
  one digit and the conversion succeeds.
\<close>

lemma gerer_alerte_seuil_eq:
  "gerer_alerte_seuil s k =
     Inr (if SEUIL_ALERTE < qte_actuelle s k then nettoyer_alerte_resolue s k
          else enregistrer_dans_log s (texte_alerte k [digit_char (qte_actuelle s k)]))"
proof (cases "SEUIL_ALERTE < qte_actuelle s k")
  case True
  then show ?thesis by (simp add: gerer_alerte_seuil_def)
next
  case False
  then have "qte_actuelle s k < 10" by (simp add: SEUIL_ALERTE_def)
  then have "py_str (int (qte_actuelle s k)) = Inr [digit_char (qte_actuelle s k)]"
    by (rule py_str_small)
  with False show ?thesis by (simp add: gerer_alerte_seuil_def message_alerte_def)
qed

lemma gerer_alerte_seuil_Inr: "gerer_alerte_seuil s k = Inr (projr (gerer_alerte_seuil s k))"
  by (simp add: gerer_alerte_seuil_eq)

lemma gerer_stock [simp]: "stock (projr (gerer_alerte_seuil s k)) = stock s"
  by (simp add: gerer_alerte_seuil_eq)

lemma gerer_preserve:
  assumes "\<And>s m. P s \<Longrightarrow> P (enregistrer_dans_log s m)"
    and "\<And>s k. P s \<Longrightarrow> P (nettoyer_alerte_resolue s k)"
    and "P s"
  shows "P (projr (gerer_alerte_seuil s k))"
  using assms by (simp add: gerer_alerte_seuil_eq)

subsection \<open>Ledger\<close>

lemma stock_get_upd [simp]:
  "stock_get (s\<lparr>stock := (stock s)(k \<mapsto> d)\<rparr>) k' = (if k' = k then d else stock_get s k')"
  by (simp add: stock_get_def)

lemma qte_cong: "stock s = stock s' \<Longrightarrow> qte_actuelle s k = qte_actuelle s' k"
  by (simp add: qte_actuelle_def stock_get_def)


lemma stock_popleft_ok:
  "est_disponible s k \<Longrightarrow>
     stock_popleft s k =
       Inr (hd (stock_get s k), s\<lparr>stock := (stock s)(k \<mapsto> tl (stock_get s k))\<rparr>)"
  by (cases "stock s k"; cases "stock_get s k")
     (auto simp: est_disponible_def stock_popleft_def stock_get_def)

lemma recuperer_boucle_dispo:
  "est_disponible s k \<Longrightarrow>
     recuperer_boucle s acc (k # ks) =
       recuperer_boucle
         (projr (gerer_alerte_seuil (s\<lparr>stock := (stock s)(k \<mapsto> tl (stock_get s k))\<rparr>) k))
         (acc @ [k]) ks"
  by (simp add: stock_popleft_ok gerer_alerte_seuil_eq)

lemma recuperer_boucle_rupture:
  "\<not> est_disponible s k \<Longrightarrow>
     recuperer_boucle s acc (k # ks) =
       recuperer_boucle (s\<lparr>app_log := app_log s @ [(WARNING, message_rupture k)]\<rparr>) acc ks"
  by simp

lemma traiter_ajout_Inl:
  "generer_cle_unique t v = Inl e \<Longrightarrow> traiter_ajout_produit s t v = Inl e"
  by (simp add: traiter_ajout_produit_def ajouter_au_stock_def)

lemma traiter_ajout_Inr:
  "generer_cle_unique t v = Inr k \<Longrightarrow>
     traiter_ajout_produit s t v =
       Inr ((projr (gerer_alerte_seuil (s\<lparr>stock := (stock s)(k \<mapsto> stock_get s k @ [v])\<rparr>) k))
             \<lparr>app_log :=
                app_log (projr (gerer_alerte_seuil
                   (s\<lparr>stock := (stock s)(k \<mapsto> stock_get s k @ [v])\<rparr>) k)) @
                [(INFO, latin ''Transaction termin'' @ [Latin (CHR 0xE9)] @
                        latin ''e pour '' @ k)]\<rparr>)"
  by (simp add: traiter_ajout_produit_def ajouter_au_stock_def stock_get_def
      gerer_alerte_seuil_eq Let_def)

lemma traiter_ajout_Inl_iff:
  "traiter_ajout_produit s t v = Inl e \<longleftrightarrow> generer_cle_unique t v = Inl e"
  by (cases "generer_cle_unique t v") (simp_all add: traiter_ajout_Inl traiter_ajout_Inr)

subsection \<open>Orders for a key that is not in stock\<close>

text \<open>
  C8. An order for a key the ledger has never seen (Z9 in the specification, any such
  key here) returns the empty list; the state afterwards is the state before with
  exactly one more log record, the back-order warning. Ledger and alert journal are
  unchanged, and no entry is created for the key in either.
\<close>

theorem backorder:
  "stock s k = None \<longrightarrow>
     traiter_commande_colis s [k] =
       Inr ([], s\<lparr>app_log := app_log s @ [(WARNING, message_rupture k)]\<rparr>)"
  by (simp add: traiter_commande_colis_def recuperer_produits_def est_disponible_def
      trier_produits_volume_def sort_reverse_def)

theorem backorder_witness:
  "stock (run (init []) [Receive (latin ''A'') 1]) (latin ''A1'') = Some [1] \<and>
   stock (run (init []) [Receive (latin ''A'') 1]) (latin ''Z9'') = None \<and>
   traiter_commande_colis (run (init []) [Receive (latin ''A'') 1]) [latin ''Z9''] =
     Inr ([], (run (init []) [Receive (latin ''A'') 1])
                \<lparr>app_log := app_log (run (init []) [Receive (latin ''A'') 1]) @
                   [(WARNING, latin ''RUPTURE: Z9 manquant (Mis en Backorder)'')]\<rparr>)"
proof -
  have a: "stock (run (init []) [Receive (latin ''A'') 1]) (latin ''A1'') = Some [1]"
    by code_simp
  have h: "stock (run (init []) [Receive (latin ''A'') 1]) (latin ''Z9'') = None"
    by code_simp
  have m: "message_rupture (latin ''Z9'') = latin ''RUPTURE: Z9 manquant (Mis en Backorder)''"
    by (simp add: message_rupture_def latin_def)
  show ?thesis
    using backorder [of "run (init []) [Receive (latin ''A'') 1]" "latin ''Z9''"] a h m
    by simp
qed

subsection \<open>Resolution of alerts\<close>

text \<open>
  C6. For every journal within its capacity and every key, after the resolution the
  journal is exactly the list of the entries that did not contain the key's text, in
  their original order; so no remaining entry contains the key's text. Ledger and
  archive are untouched.
\<close>

theorem resolution_correcte:
  "length (journal_alertes s) \<le> MAX_LOG_SIZE \<longrightarrow>
     journal_alertes (nettoyer_alerte_resolue s cle) =
       filter (\<lambda>a. \<not> py_in cle a) (journal_alertes s) \<and>
     list_all (\<lambda>a. \<not> (\<exists>pre suf. a = pre @ cle @ suf))
       (journal_alertes (nettoyer_alerte_resolue s cle)) \<and>
     stock (nettoyer_alerte_resolue s cle) = stock s \<and>
     archive (nettoyer_alerte_resolue s cle) = archive s"
  by (simp add: nettoyer_bounded list_all_iff py_in_iff)

theorem resolution_correcte_witness:
  "journal_alertes (run (init []) [Receive (latin ''A'') 1, Receive (latin ''B'') 3]) =
     [texte_alerte (latin ''A1'') (latin ''1''), texte_alerte (latin ''B3'') (latin ''1'')] \<and>
   length (journal_alertes (run (init []) [Receive (latin ''A'') 1, Receive (latin ''B'') 3]))
     \<le> MAX_LOG_SIZE \<and>
   journal_alertes (nettoyer_alerte_resolue
       (run (init []) [Receive (latin ''A'') 1, Receive (latin ''B'') 3]) (latin ''A1'')) =
     [texte_alerte (latin ''B3'') (latin ''1'')]"
proof -
  have j: "journal_alertes (run (init []) [Receive (latin ''A'') 1, Receive (latin ''B'') 3]) =
     [texte_alerte (latin ''A1'') (latin ''1''), texte_alerte (latin ''B3'') (latin ''1'')]"
    by code_simp
  have h: "length (journal_alertes (run (init []) [Receive (latin ''A'') 1, Receive (latin ''B'') 3]))
     \<le> MAX_LOG_SIZE"
    by code_simp
  have f: "filter (\<lambda>a. \<not> py_in (latin ''A1'') a)
      (journal_alertes (run (init []) [Receive (latin ''A'') 1, Receive (latin ''B'') 3])) =
     [texte_alerte (latin ''B3'') (latin ''1'')]"
    by code_simp
  show ?thesis
    using resolution_correcte
      [of "run (init []) [Receive (latin ''A'') 1, Receive (latin ''B'') 3]" "latin ''A1''"] j h f
    by simp
qed

subsection \<open>Stacking order\<close>

lemma insort_key_decorate:
  "insort_key fst (f x, x) (map (\<lambda>p. (f p, p)) ys) = map (\<lambda>p. (f p, p)) (insort_key f x ys)"
  by (induction ys) simp_all

lemma sort_key_decorate:
  "sort_key fst (map (\<lambda>p. (f p, p)) xs) = map (\<lambda>p. (f p, p)) (sort_key f xs)"
  by (induction xs) (simp_all add: insort_key_decorate)

lemma trier_eq: "trier_produits_volume ps = rev (sort_key extraire_volume_cle (rev ps))"
proof -
  have "sort_key fst (rev (map (\<lambda>p. (extraire_volume_cle p, p)) ps)) =
        map (\<lambda>p. (extraire_volume_cle p, p)) (sort_key extraire_volume_cle (rev ps))"
    by (simp add: rev_map sort_key_decorate)
  then show ?thesis
    by (simp add: trier_produits_volume_def sort_reverse_def rev_map comp_def)
qed

lemma trier_mset: "mset (trier_produits_volume ps) = mset ps"
  by (simp add: trier_eq)

lemma trier_stable:
  "filter (\<lambda>p. extraire_volume_cle p = v) (trier_produits_volume ps) =
   filter (\<lambda>p. extraire_volume_cle p = v) ps"
  by (simp add: trier_eq rev_filter [symmetric] sort_key_stable)

lemma trier_sorted:
  "sorted_wrt (\<lambda>a b. extraire_volume_cle b \<le> extraire_volume_cle a) (trier_produits_volume ps)"
proof -
  have "sorted (map extraire_volume_cle (sort_key extraire_volume_cle (rev ps)))"
    by (rule sorted_sort_key)
  then have "sorted_wrt (\<lambda>a b. extraire_volume_cle a \<le> extraire_volume_cle b)
      (sort_key extraire_volume_cle (rev ps))"
    by (simp add: sorted_wrt_map)
  then show ?thesis by (simp add: trier_eq sorted_wrt_rev)
qed

text \<open>
  C5. The stacking order is by descending extracted volume and stable. The two examples
  of the specification evaluate as stated. For every input list the result is a
  rearrangement of the input in which no key stands before a key of larger volume, and
  for every volume the keys of that volume appear in the result in the order they had
  in the input.
\<close>

theorem tri_stable:
  "trier_produits_volume [latin ''A1'', latin ''C2'', latin ''B3''] =
     [latin ''B3'', latin ''C2'', latin ''A1''] \<and>
   trier_produits_volume [latin ''X2'', latin ''Y2''] = [latin ''X2'', latin ''Y2''] \<and>
   mset (trier_produits_volume ps) = mset ps \<and>
   sorted_wrt (\<lambda>a b. extraire_volume_cle b \<le> extraire_volume_cle a) (trier_produits_volume ps) \<and>
   filter (\<lambda>p. extraire_volume_cle p = v) (trier_produits_volume ps) =
     filter (\<lambda>p. extraire_volume_cle p = v) ps"
proof -
  have e1: "trier_produits_volume [latin ''A1'', latin ''C2'', latin ''B3''] =
     [latin ''B3'', latin ''C2'', latin ''A1'']"
    by code_simp
  have e2: "trier_produits_volume [latin ''X2'', latin ''Y2''] = [latin ''X2'', latin ''Y2'']"
    by code_simp
  show ?thesis using e1 e2 trier_mset trier_stable trier_sorted by simp
qed

subsection \<open>Orders with repeated keys\<close>

lemma qte_gerer [simp]: "qte_actuelle (projr (gerer_alerte_seuil s k)) K = qte_actuelle s K"
  by (rule qte_cong) simp

lemma qte_log [simp]: "qte_actuelle (s\<lparr>app_log := l\<rparr>) K = qte_actuelle s K"
  by (rule qte_cong) simp





subsection \<open>First in, first out\<close>

lemma stock_traiter_ajout:
  "generer_cle_unique t v = Inr k \<Longrightarrow>
     \<exists>s1. traiter_ajout_produit s t v = Inr s1 \<and>
          stock s1 = (stock s)(k \<mapsto> stock_get s k @ [v])"
  by (simp add: traiter_ajout_Inr)

lemma recuperer_un:
  assumes "stock s k = Some (v # d)"
  shows "stock_popleft s k = Inr (v, s\<lparr>stock := (stock s)(k \<mapsto> d)\<rparr>)"
    and "recuperer_produits s [k] =
           Inr ([k], projr (gerer_alerte_seuil (s\<lparr>stock := (stock s)(k \<mapsto> d)\<rparr>) k))"
  using assms
  by (simp_all add: stock_popleft_def recuperer_produits_def est_disponible_def
      gerer_alerte_seuil_eq)

lemma recuperer_boucle_file:
  "stock s k = Some (q @ r) \<Longrightarrow>
     \<exists>s'. recuperer_boucle s acc (replicate (length q) k) = Inr (acc @ replicate (length q) k, s') \<and>
          stock s' k = Some r"
proof (induction q arbitrary: s acc)
  case Nil
  then show ?case by simp
next
  case (Cons v q)
  have d: "est_disponible s k" using Cons.prems by (simp add: est_disponible_def)
  have g: "stock_get s k = v # q @ r" using Cons.prems by (simp add: stock_get_def)
  let ?s1 = "projr (gerer_alerte_seuil (s\<lparr>stock := (stock s)(k \<mapsto> tl (stock_get s k))\<rparr>) k)"
  have "stock ?s1 k = Some (q @ r)" using g by simp
  from Cons.IH [OF this, of "acc @ [k]"] obtain s' where
    r: "recuperer_boucle ?s1 (acc @ [k]) (replicate (length q) k) =
          Inr ((acc @ [k]) @ replicate (length q) k, s')" and
    st: "stock s' k = Some r"
    by blast
  have "recuperer_boucle s acc (replicate (length (v # q)) k) =
          recuperer_boucle ?s1 (acc @ [k]) (replicate (length q) k)"
    using recuperer_boucle_dispo [OF d, of acc "replicate (length q) k"] by simp
  with r st show ?case by simp
qed

text \<open>
  C1. For every state and every key \<open>k\<close>: three receipts that derive \<open>k\<close>, with volumes
  \<open>v1\<close>, \<open>v2\<close>, \<open>v3\<close> in that order, succeed, and the queue of \<open>k\<close> is then the queue
  before followed by \<open>v1\<close>, \<open>v2\<close>, \<open>v3\<close>. Once the units that were on hand before have
  been served (none for a key that had no unit), the queue is \<open>[v1, v2, v3]\<close>, and three
  successive orders for \<open>k\<close> each succeed and each change the ledger exactly as the
  \<^verbatim>\<open>popleft\<close> that removes and returns \<open>v1\<close>, then \<open>v2\<close>, then \<open>v3\<close>.
\<close>

theorem fifo_par_cle:
  "generer_cle_unique t1 v1 = Inr k \<and> generer_cle_unique t2 v2 = Inr k \<and>
   generer_cle_unique t3 v3 = Inr k \<longrightarrow>
   (\<exists>s1 s2 s3 s0 a1 a2 a3 b1 b2 b3.
      traiter_ajout_produit s t1 v1 = Inr s1 \<and> traiter_ajout_produit s1 t2 v2 = Inr s2 \<and>
      traiter_ajout_produit s2 t3 v3 = Inr s3 \<and>
      stock s3 k = Some (stock_get s k @ [v1, v2, v3]) \<and>
      recuperer_produits s3 (replicate (qte_actuelle s k) k)
        = Inr (replicate (qte_actuelle s k) k, s0) \<and>
      stock s0 k = Some [v1, v2, v3] \<and>
      stock_popleft s0 k = Inr (v1, a1) \<and> recuperer_produits s0 [k] = Inr ([k], b1) \<and>
      stock b1 = stock a1 \<and> stock b1 k = Some [v2, v3] \<and>
      stock_popleft b1 k = Inr (v2, a2) \<and> recuperer_produits b1 [k] = Inr ([k], b2) \<and>
      stock b2 = stock a2 \<and> stock b2 k = Some [v3] \<and>
      stock_popleft b2 k = Inr (v3, a3) \<and> recuperer_produits b2 [k] = Inr ([k], b3) \<and>
      stock b3 = stock a3 \<and> stock b3 k = Some [])"
proof
  assume a: "generer_cle_unique t1 v1 = Inr k \<and> generer_cle_unique t2 v2 = Inr k \<and>
   generer_cle_unique t3 v3 = Inr k"
  from a obtain s1 where t1: "traiter_ajout_produit s t1 v1 = Inr s1"
    and st1: "stock s1 = (stock s)(k \<mapsto> stock_get s k @ [v1])"
    using stock_traiter_ajout [of t1 v1 k s] by blast
  from a obtain s2 where t2: "traiter_ajout_produit s1 t2 v2 = Inr s2"
    and st2: "stock s2 = (stock s1)(k \<mapsto> stock_get s1 k @ [v2])"
    using stock_traiter_ajout [of t2 v2 k s1] by blast
  from a obtain s3 where t3: "traiter_ajout_produit s2 t3 v3 = Inr s3"
    and st3: "stock s3 = (stock s2)(k \<mapsto> stock_get s2 k @ [v3])"
    using stock_traiter_ajout [of t3 v3 k s2] by blast
  have g1: "stock_get s1 k = stock_get s k @ [v1]" using st1 by (simp add: stock_get_def)
  have g2: "stock_get s2 k = stock_get s k @ [v1, v2]" using st2 g1 by (simp add: stock_get_def)
  have s3: "stock s3 k = Some (stock_get s k @ [v1, v2, v3])" using st3 g2 by simp
  from recuperer_boucle_file [OF s3, of "[]"] obtain s0 where
    r0: "recuperer_produits s3 (replicate (qte_actuelle s k) k) =
           Inr (replicate (qte_actuelle s k) k, s0)" and
    s0: "stock s0 k = Some [v1, v2, v3]"
    by (auto simp: recuperer_produits_def qte_actuelle_def)
  let ?a1 = "s0\<lparr>stock := (stock s0)(k \<mapsto> [v2, v3])\<rparr>"
  let ?b1 = "projr (gerer_alerte_seuil ?a1 k)"
  have p1: "stock_popleft s0 k = Inr (v1, ?a1)" and r1: "recuperer_produits s0 [k] = Inr ([k], ?b1)"
    using recuperer_un [OF s0] by simp_all
  have b1: "stock ?b1 = stock ?a1" "stock ?b1 k = Some [v2, v3]" by simp_all
  let ?a2 = "?b1\<lparr>stock := (stock ?b1)(k \<mapsto> [v3])\<rparr>"
  let ?b2 = "projr (gerer_alerte_seuil ?a2 k)"
  have p2: "stock_popleft ?b1 k = Inr (v2, ?a2)" and r2: "recuperer_produits ?b1 [k] = Inr ([k], ?b2)"
    using recuperer_un [OF b1(2)] by simp_all
  have b2: "stock ?b2 = stock ?a2" "stock ?b2 k = Some [v3]" by simp_all
  let ?a3 = "?b2\<lparr>stock := (stock ?b2)(k \<mapsto> [])\<rparr>"
  let ?b3 = "projr (gerer_alerte_seuil ?a3 k)"
  have p3: "stock_popleft ?b2 k = Inr (v3, ?a3)" and r3: "recuperer_produits ?b2 [k] = Inr ([k], ?b3)"
    using recuperer_un [OF b2(2)] by simp_all
  have b3: "stock ?b3 = stock ?a3" "stock ?b3 k = Some []" by simp_all
  show "\<exists>s1 s2 s3 s0 a1 a2 a3 b1 b2 b3.
      traiter_ajout_produit s t1 v1 = Inr s1 \<and> traiter_ajout_produit s1 t2 v2 = Inr s2 \<and>
      traiter_ajout_produit s2 t3 v3 = Inr s3 \<and>
      stock s3 k = Some (stock_get s k @ [v1, v2, v3]) \<and>
      recuperer_produits s3 (replicate (qte_actuelle s k) k)
        = Inr (replicate (qte_actuelle s k) k, s0) \<and>
      stock s0 k = Some [v1, v2, v3] \<and>
      stock_popleft s0 k = Inr (v1, a1) \<and> recuperer_produits s0 [k] = Inr ([k], b1) \<and>
      stock b1 = stock a1 \<and> stock b1 k = Some [v2, v3] \<and>
      stock_popleft b1 k = Inr (v2, a2) \<and> recuperer_produits b1 [k] = Inr ([k], b2) \<and>
      stock b2 = stock a2 \<and> stock b2 k = Some [v3] \<and>
      stock_popleft b2 k = Inr (v3, a3) \<and> recuperer_produits b2 [k] = Inr ([k], b3) \<and>
      stock b3 = stock a3 \<and> stock b3 k = Some []"
    using t1 t2 t3 s3 r0 s0 p1 r1 b1 p2 r2 b2 p3 r3 b3 by blast
qed

theorem fifo_par_cle_witness:
  "generer_cle_unique (latin ''A1'') 2 = Inr (latin ''A12'') \<and>
   generer_cle_unique (latin ''A'') 12 = Inr (latin ''A12'') \<and>
   generer_cle_unique (latin ''a'') 12 = Inr (latin ''A12'') \<and>
   (\<exists>s1 s2 s3 s0 a1 a2 a3 b1 b2 b3.
      traiter_ajout_produit (init []) (latin ''A1'') 2 = Inr s1 \<and>
      traiter_ajout_produit s1 (latin ''A'') 12 = Inr s2 \<and>
      traiter_ajout_produit s2 (latin ''a'') 12 = Inr s3 \<and>
      stock s3 (latin ''A12'') = Some [2, 12, 12] \<and>
      recuperer_produits s3 [] = Inr ([], s0) \<and>
      stock s0 (latin ''A12'') = Some [2, 12, 12] \<and>
      stock_popleft s0 (latin ''A12'') = Inr (2, a1) \<and>
      recuperer_produits s0 [latin ''A12''] = Inr ([latin ''A12''], b1) \<and>
      stock b1 = stock a1 \<and> stock b1 (latin ''A12'') = Some [12, 12] \<and>
      stock_popleft b1 (latin ''A12'') = Inr (12, a2) \<and>
      recuperer_produits b1 [latin ''A12''] = Inr ([latin ''A12''], b2) \<and>
      stock b2 = stock a2 \<and> stock b2 (latin ''A12'') = Some [12] \<and>
      stock_popleft b2 (latin ''A12'') = Inr (12, a3) \<and>
      recuperer_produits b2 [latin ''A12''] = Inr ([latin ''A12''], b3) \<and>
      stock b3 = stock a3 \<and> stock b3 (latin ''A12'') = Some [])"
proof -
  have h: "generer_cle_unique (latin ''A1'') 2 = Inr (latin ''A12'') \<and>
   generer_cle_unique (latin ''A'') 12 = Inr (latin ''A12'') \<and>
   generer_cle_unique (latin ''a'') 12 = Inr (latin ''A12'')"
    by code_simp
  have q: "qte_actuelle (init []) (latin ''A12'') = 0" "stock_get (init []) (latin ''A12'') = []"
    by code_simp+
  show ?thesis
    using fifo_par_cle
      [of "latin ''A1''" 2 "latin ''A12''" "latin ''A''" 12 "latin ''a''" 12 "init []"] h
    unfolding q by simp
qed

subsection \<open>Invariants of runs\<close>

lemma traiter_ajout_preserve:
  assumes rec: "\<And>s m. P s \<Longrightarrow> P (enregistrer_dans_log s m)"
    and res: "\<And>s k. P s \<Longrightarrow> P (nettoyer_alerte_resolue s k)"
    and stk: "\<And>s f. P s \<Longrightarrow> P (s\<lparr>stock := f\<rparr>)"
    and lg: "\<And>s l. P s \<Longrightarrow> P (s\<lparr>app_log := l\<rparr>)"
    and "P s" and "traiter_ajout_produit s t v = Inr s'"
  shows "P s'"
proof -
  from assms(6) obtain k where g: "generer_cle_unique t v = Inr k"
    by (cases "generer_cle_unique t v") (simp_all add: traiter_ajout_Inl)
  let ?s1 = "s\<lparr>stock := (stock s)(k \<mapsto> stock_get s k @ [v])\<rparr>"
  have "P ?s1" using stk assms(5) by blast
  then have "P (projr (gerer_alerte_seuil ?s1 k))"
    by (simp add: gerer_alerte_seuil_eq rec res)
  then show ?thesis using assms(6) by (auto simp: traiter_ajout_Inr [OF g] lg)
qed

lemma recuperer_boucle_preserve:
  assumes rec: "\<And>s m. P s \<Longrightarrow> P (enregistrer_dans_log s m)"
    and res: "\<And>s k. P s \<Longrightarrow> P (nettoyer_alerte_resolue s k)"
    and stk: "\<And>s f. P s \<Longrightarrow> P (s\<lparr>stock := f\<rparr>)"
    and lg: "\<And>s l. P s \<Longrightarrow> P (s\<lparr>app_log := l\<rparr>)"
  shows "P s \<Longrightarrow> \<exists>acc' s'. recuperer_boucle s acc ks = Inr (acc', s') \<and> P s'"
proof (induction ks arbitrary: s acc)
  case Nil
  then show ?case by simp
next
  case (Cons k ks)
  show ?case
  proof (cases "est_disponible s k")
    case True
    let ?s1 = "projr (gerer_alerte_seuil (s\<lparr>stock := (stock s)(k \<mapsto> tl (stock_get s k))\<rparr>) k)"
    have "P (s\<lparr>stock := (stock s)(k \<mapsto> tl (stock_get s k))\<rparr>)" using stk Cons.prems by blast
    then have "P ?s1" by (simp add: gerer_alerte_seuil_eq rec res)
    from Cons.IH [OF this, of "acc @ [k]"] show ?thesis
      by (simp only: recuperer_boucle_dispo [OF True])
  next
    case False
    have "P (s\<lparr>app_log := app_log s @ [(WARNING, message_rupture k)]\<rparr>)" using lg Cons.prems by blast
    from Cons.IH [OF this, of acc] show ?thesis
      by (simp only: recuperer_boucle_rupture [OF False])
  qed
qed

lemma commande_ne_leve_pas: "\<exists>colis s'. traiter_commande_colis s commande = Inr (colis, s')"
proof -
  from recuperer_boucle_preserve [of "\<lambda>s. True" s "[]" commande]
  obtain acc' s' where "recuperer_boucle s [] commande = Inr (acc', s')" by auto
  then show ?thesis by (simp add: traiter_commande_colis_def recuperer_produits_def)
qed

lemma apply_operation_Inl_iff:
  "apply_operation s operation = Inl e \<longleftrightarrow>
     e = ValueError \<and>
     (\<exists>t v. operation = Receive t v \<and> INT_MAX_STR_DIGITS < length (str_nat (nat \<bar>v\<bar>)))"
proof (cases operation)
  case (Fulfill commande)
  obtain colis s' where "traiter_commande_colis s commande = Inr (colis, s')"
    using commande_ne_leve_pas by blast
  with Fulfill show ?thesis by simp
qed (auto simp: traiter_ajout_Inl_iff generer_cle_Inl_iff)

lemma apply_operation_preserve:
  assumes rec: "\<And>s m. P s \<Longrightarrow> P (enregistrer_dans_log s m)"
    and res: "\<And>s k. P s \<Longrightarrow> P (nettoyer_alerte_resolue s k)"
    and stk: "\<And>s f. P s \<Longrightarrow> P (s\<lparr>stock := f\<rparr>)"
    and lg: "\<And>s l. P s \<Longrightarrow> P (s\<lparr>app_log := l\<rparr>)"
    and p: "P s" and a: "apply_operation s operation = Inr s1"
  shows "P s1"
proof (cases operation)
  case (Record m)
  then show ?thesis using rec p a by auto
next
  case (Resolve k)
  then show ?thesis using res p a by auto
next
  case (Receive t v)
  with a have "traiter_ajout_produit s t v = Inr s1" by simp
  then show ?thesis using traiter_ajout_preserve [of P, OF rec res stk lg p] by blast
next
  case (Fulfill commande)
  from recuperer_boucle_preserve [of P, OF rec res stk lg p, of "[]" commande]
  obtain acc' s' where "recuperer_boucle s [] commande = Inr (acc', s')" and "P s'" by blast
  then show ?thesis using Fulfill a
    by (auto simp: traiter_commande_colis_def recuperer_produits_def)
qed

lemma run_preserve:
  assumes rec: "\<And>s m. P s \<Longrightarrow> P (enregistrer_dans_log s m)"
    and res: "\<And>s k. P s \<Longrightarrow> P (nettoyer_alerte_resolue s k)"
    and stk: "\<And>s f. P s \<Longrightarrow> P (s\<lparr>stock := f\<rparr>)"
    and lg: "\<And>s l. P s \<Longrightarrow> P (s\<lparr>app_log := l\<rparr>)"
  shows "P s \<Longrightarrow> P (run s ops)"
proof (induction ops arbitrary: s)
  case Nil
  then show ?case by simp
next
  case (Cons operation ops)
  show ?case
  proof (cases "apply_operation s operation")
    case (Inl e)
    then show ?thesis using Cons.IH [OF Cons.prems] by simp
  next
    case (Inr s1)
    then have "P s1"
      using apply_operation_preserve [of P, OF rec res stk lg Cons.prems] by blast
    then show ?thesis using Cons.IH Inr by simp
  qed
qed

lemma enregistrer_length:
  "length (journal_alertes s) \<le> MAX_LOG_SIZE \<Longrightarrow>
     length (journal_alertes (enregistrer_dans_log s m)) \<le> MAX_LOG_SIZE"
proof (cases "length (journal_alertes s) = MAX_LOG_SIZE")
  case True
  then show ?thesis by (simp add: enregistrer_full MAX_LOG_SIZE_def)
next
  case False
  assume "length (journal_alertes s) \<le> MAX_LOG_SIZE"
  with False have "length (journal_alertes s) < MAX_LOG_SIZE" by simp
  then show ?thesis by (simp add: enregistrer_below)
qed

lemma nettoyer_length:
  "length (journal_alertes s) \<le> MAX_LOG_SIZE \<Longrightarrow>
     length (journal_alertes (nettoyer_alerte_resolue s k)) \<le> MAX_LOG_SIZE"
  by (simp add: nettoyer_bounded order_trans [OF length_filter_le])

lemma run_length:
  "length (journal_alertes s) \<le> MAX_LOG_SIZE \<Longrightarrow>
     length (journal_alertes (run s ops)) \<le> MAX_LOG_SIZE"
  by (rule run_preserve [where P = "\<lambda>s. length (journal_alertes s) \<le> MAX_LOG_SIZE"])
     (simp_all add: enregistrer_length nettoyer_length)

lemma enregistrer_at_capacity:
  "\<not> length (journal_alertes s) < MAX_LOG_SIZE \<Longrightarrow>
     journal_alertes (enregistrer_dans_log s m) = tl (journal_alertes s) @ [m] \<and>
     evicted (enregistrer_dans_log s m) = evicted s @ [journal_alertes s ! 0]"
  by (simp add: enregistrer_dans_log_def deque_append_full MAX_LOG_SIZE_def)

text \<open>
  C2. Whatever the archive file does and whatever the sequence of calls (records,
  resolutions, receipts, orders), the journal of the state the run ends in holds at
  most \<open>MAX_LOG_SIZE\<close> entries. Recording into a journal below capacity appends the
  message and evicts nothing; recording into a journal at capacity evicts exactly the
  entry at index 0 and appends the message after the others. A resolution on a journal
  within capacity evicts nothing. A call raises only when it is a receipt whose volume
  has more than 4300 digits, and what it raises is \<^verbatim>\<open>ValueError\<close>.
\<close>

theorem journal_capacite:
  "length (journal_alertes (run (init io) ops)) \<le> MAX_LOG_SIZE \<and>
   (if length (journal_alertes s0) < MAX_LOG_SIZE
    then journal_alertes (enregistrer_dans_log s0 m) = journal_alertes s0 @ [m] \<and>
         evicted (enregistrer_dans_log s0 m) = evicted s0
    else journal_alertes (enregistrer_dans_log s0 m) = tl (journal_alertes s0) @ [m] \<and>
         evicted (enregistrer_dans_log s0 m) = evicted s0 @ [journal_alertes s0 ! 0]) \<and>
   (length (journal_alertes s0) \<le> MAX_LOG_SIZE \<longrightarrow>
      evicted (nettoyer_alerte_resolue s0 k) = evicted s0) \<and>
   (apply_operation s0 operation = Inl e) =
     (e = ValueError \<and>
      (\<exists>t v. operation = Receive t v \<and> INT_MAX_STR_DIGITS < length (str_nat (nat \<bar>v\<bar>))))"
proof (intro conjI)
  show "length (journal_alertes (run (init io) ops)) \<le> MAX_LOG_SIZE"
    by (rule run_length) (simp add: init_def)
  show "if length (journal_alertes s0) < MAX_LOG_SIZE
    then journal_alertes (enregistrer_dans_log s0 m) = journal_alertes s0 @ [m] \<and>
         evicted (enregistrer_dans_log s0 m) = evicted s0
    else journal_alertes (enregistrer_dans_log s0 m) = tl (journal_alertes s0) @ [m] \<and>
         evicted (enregistrer_dans_log s0 m) = evicted s0 @ [journal_alertes s0 ! 0]"
    by (simp add: enregistrer_below enregistrer_at_capacity)
  show "length (journal_alertes s0) \<le> MAX_LOG_SIZE \<longrightarrow>
      evicted (nettoyer_alerte_resolue s0 k) = evicted s0"
    by (simp add: nettoyer_bounded)
  show "(apply_operation s0 operation = Inl e) =
     (e = ValueError \<and>
      (\<exists>t v. operation = Receive t v \<and> INT_MAX_STR_DIGITS < length (str_nat (nat \<bar>v\<bar>))))"
    by (rule apply_operation_Inl_iff)
qed

theorem journal_capacite_witness:
  "journal_alertes (run (init []) [Record (latin ''a''), Record (latin ''b''), Record (latin ''c'')])
     = [latin ''a'', latin ''b'', latin ''c''] \<and>
   length (journal_alertes
     (run (init []) [Record (latin ''a''), Record (latin ''b''), Record (latin ''c'')]))
     \<le> MAX_LOG_SIZE \<and>
   evicted (nettoyer_alerte_resolue
     (run (init []) [Record (latin ''a''), Record (latin ''b''), Record (latin ''c'')])
     (latin ''b'')) = [] \<and>
   journal_alertes (enregistrer_dans_log
     (run (init []) [Record (latin ''a''), Record (latin ''b''), Record (latin ''c'')])
     (latin ''d'')) = [latin ''b'', latin ''c'', latin ''d''] \<and>
   evicted (enregistrer_dans_log
     (run (init []) [Record (latin ''a''), Record (latin ''b''), Record (latin ''c'')])
     (latin ''d'')) = [latin ''a'']"
proof -
  have j: "journal_alertes
      (run (init []) [Record (latin ''a''), Record (latin ''b''), Record (latin ''c'')])
     = [latin ''a'', latin ''b'', latin ''c'']"
    by code_simp
  have ev: "evicted
      (run (init []) [Record (latin ''a''), Record (latin ''b''), Record (latin ''c'')]) = []"
    by code_simp
  have h: "length (journal_alertes
     (run (init []) [Record (latin ''a''), Record (latin ''b''), Record (latin ''c'')]))
     \<le> MAX_LOG_SIZE"
    by code_simp
  show ?thesis
    using journal_capacite
      [of "[]" "[]" "run (init []) [Record (latin ''a''), Record (latin ''b''), Record (latin ''c'')]"
          "latin ''d''" "latin ''b''"] h
    unfolding j ev
    by (simp add: MAX_LOG_SIZE_def)
qed

subsection \<open>Archive\<close>

lemma enregistrer_archive_inv:
  assumes "length (journal_alertes s) \<le> MAX_LOG_SIZE"
    and "archive s = map ligne_archive (evicted s)"
    and "True \<notin> set (io_errors s)"
  shows "length (journal_alertes (enregistrer_dans_log s m)) \<le> MAX_LOG_SIZE \<and>
         archive (enregistrer_dans_log s m) = map ligne_archive (evicted (enregistrer_dans_log s m)) \<and>
         True \<notin> set (io_errors (enregistrer_dans_log s m))"
proof (cases "length (journal_alertes s) = MAX_LOG_SIZE")
  case True
  have "length (journal_alertes (enregistrer_dans_log s m)) \<le> MAX_LOG_SIZE"
    using assms(1) by (rule enregistrer_length)
  then show ?thesis
    using assms(2) archiver_no_fault [OF assms(3), of "journal_alertes s ! 0"]
    by (simp add: enregistrer_full [OF True])
next
  case False
  with assms(1) have "length (journal_alertes s) < MAX_LOG_SIZE" by simp
  then show ?thesis using assms by (simp add: enregistrer_below)
qed

lemma nettoyer_archive_inv:
  assumes "length (journal_alertes s) \<le> MAX_LOG_SIZE"
    and "archive s = map ligne_archive (evicted s)"
    and "True \<notin> set (io_errors s)"
  shows "length (journal_alertes (nettoyer_alerte_resolue s k)) \<le> MAX_LOG_SIZE \<and>
         archive (nettoyer_alerte_resolue s k) = map ligne_archive (evicted (nettoyer_alerte_resolue s k)) \<and>
         True \<notin> set (io_errors (nettoyer_alerte_resolue s k))"
  using assms nettoyer_length [OF assms(1), of k] by (simp add: nettoyer_bounded)

lemma run_archive:
  assumes "length (journal_alertes s) \<le> MAX_LOG_SIZE"
    and "archive s = map ligne_archive (evicted s)"
    and "True \<notin> set (io_errors s)"
  shows "length (journal_alertes (run s ops)) \<le> MAX_LOG_SIZE \<and>
         archive (run s ops) = map ligne_archive (evicted (run s ops)) \<and>
         True \<notin> set (io_errors (run s ops))"
proof (rule run_preserve [where P = "\<lambda>s. length (journal_alertes s) \<le> MAX_LOG_SIZE \<and>
            archive s = map ligne_archive (evicted s) \<and> True \<notin> set (io_errors s)"])
  show "length (journal_alertes s) \<le> MAX_LOG_SIZE \<and>
            archive s = map ligne_archive (evicted s) \<and> True \<notin> set (io_errors s)"
    using assms by simp
next
  fix s :: gestionnaire and m
  assume "length (journal_alertes s) \<le> MAX_LOG_SIZE \<and>
            archive s = map ligne_archive (evicted s) \<and> True \<notin> set (io_errors s)"
  then show "length (journal_alertes (enregistrer_dans_log s m)) \<le> MAX_LOG_SIZE \<and>
         archive (enregistrer_dans_log s m) = map ligne_archive (evicted (enregistrer_dans_log s m)) \<and>
         True \<notin> set (io_errors (enregistrer_dans_log s m))"
    using enregistrer_archive_inv [of s m] by blast
next
  fix s :: gestionnaire and k
  assume "length (journal_alertes s) \<le> MAX_LOG_SIZE \<and>
            archive s = map ligne_archive (evicted s) \<and> True \<notin> set (io_errors s)"
  then show "length (journal_alertes (nettoyer_alerte_resolue s k)) \<le> MAX_LOG_SIZE \<and>
         archive (nettoyer_alerte_resolue s k) = map ligne_archive (evicted (nettoyer_alerte_resolue s k)) \<and>
         True \<notin> set (io_errors (nettoyer_alerte_resolue s k))"
    using nettoyer_archive_inv [of s k] by blast
qed simp_all

text \<open>
  C7 (amended). In every run in which no write to the archive file fails, the strings
  written to the archive are, in order, the lines \<^verbatim>\<open>[ARCHIVE] <message>\<close> followed by a
  newline, one for each entry the journal evicted, with the evicted text verbatim. A
  resolution writes nothing to the archive.
\<close>

theorem archive_ordre:
  "(True \<notin> set io \<longrightarrow>
      archive (run (init io) ops) = map ligne_archive (evicted (run (init io) ops))) \<and>
   ligne_archive m = latin ''[ARCHIVE] '' @ m @ [Latin (CHR 0x0A)] \<and>
   archive (nettoyer_alerte_resolue s0 k) = archive s0"
proof (intro conjI impI)
  assume "True \<notin> set io"
  then have "length (journal_alertes (run (init io) ops)) \<le> MAX_LOG_SIZE \<and>
         archive (run (init io) ops) = map ligne_archive (evicted (run (init io) ops)) \<and>
         True \<notin> set (io_errors (run (init io) ops))"
    by (intro run_archive) (simp_all add: init_def)
  then show "archive (run (init io) ops) = map ligne_archive (evicted (run (init io) ops))"
    by blast
qed (simp_all add: ligne_archive_def)

theorem archive_ordre_witness:
  "True \<notin> set [False] \<and>
   evicted (run (init [False])
      [Record (latin ''a''), Record (latin ''b''), Record (latin ''c''), Record (latin ''d''),
       Resolve (latin ''c'')]) = [latin ''a''] \<and>
   archive (run (init [False])
      [Record (latin ''a''), Record (latin ''b''), Record (latin ''c''), Record (latin ''d''),
       Resolve (latin ''c'')]) = [latin ''[ARCHIVE] a'' @ [Latin (CHR 0x0A)]]"
proof -
  have h: "True \<notin> set [False]" by simp
  have e: "evicted (run (init [False])
      [Record (latin ''a''), Record (latin ''b''), Record (latin ''c''), Record (latin ''d''),
       Resolve (latin ''c'')]) = [latin ''a'']"
    by code_simp
  have l: "ligne_archive (latin ''a'') = latin ''[ARCHIVE] a'' @ [Latin (CHR 0x0A)]"
    by (simp add: ligne_archive_def latin_def)
  show ?thesis
    using archive_ordre
      [of "[False]" "[Record (latin ''a''), Record (latin ''b''), Record (latin ''c''),
          Record (latin ''d''), Resolve (latin ''c'')]"] h e l
    by simp
qed

text \<open>
  When the write fails the eviction still takes place and no line is written: with a
  first write that raises \<^verbatim>\<open>IOError\<close>, four records evict the entry a and leave the
  archive empty.
\<close>

theorem archive_ordre_counterexample:
  "evicted (run (init [True])
      [Record (latin ''a''), Record (latin ''b''), Record (latin ''c''), Record (latin ''d'')])
     = [latin ''a''] \<and>
   archive (run (init [True])
      [Record (latin ''a''), Record (latin ''b''), Record (latin ''c''), Record (latin ''d'')])
     = []"
  by code_simp

subsection \<open>End-to-end scenario\<close>

text \<open>
  C3. From the empty controller, whatever the archive file does: the receipts of (A, 1)
  three times and (B, 3) twice succeed; after them the quantities are 3 for A1 and 2
  for B3, no journal entry contains A1 and some entry contains B3. The order [A1, B3]
  is then served without an exception, returns [B3, A1], leaves the quantities 2 for
  A1 and 1 for B3, and the journal then has an entry containing A1 and an entry
  containing B3.
\<close>

theorem scenario_bout_en_bout:
  "(case traiter_ajout_produit (init io) (latin ''A'') 1 of Inl e \<Rightarrow> False | Inr s1 \<Rightarrow>
    case traiter_ajout_produit s1 (latin ''A'') 1 of Inl e \<Rightarrow> False | Inr s2 \<Rightarrow>
    case traiter_ajout_produit s2 (latin ''A'') 1 of Inl e \<Rightarrow> False | Inr s3 \<Rightarrow>
    case traiter_ajout_produit s3 (latin ''B'') 3 of Inl e \<Rightarrow> False | Inr s4 \<Rightarrow>
    case traiter_ajout_produit s4 (latin ''B'') 3 of Inl e \<Rightarrow> False | Inr s5 \<Rightarrow>
      qte_actuelle s5 (latin ''A1'') = 3 \<and> qte_actuelle s5 (latin ''B3'') = 2 \<and>
      list_all (\<lambda>a. \<not> py_in (latin ''A1'') a) (journal_alertes s5) \<and>
      list_ex (py_in (latin ''B3'')) (journal_alertes s5) \<and>
      (case traiter_commande_colis s5 [latin ''A1'', latin ''B3''] of
         Inl e \<Rightarrow> False
       | Inr (colis, s6) \<Rightarrow>
           colis = [latin ''B3'', latin ''A1''] \<and>
           qte_actuelle s6 (latin ''A1'') = 2 \<and> qte_actuelle s6 (latin ''B3'') = 1 \<and>
           list_ex (py_in (latin ''A1'')) (journal_alertes s6) \<and>
           list_ex (py_in (latin ''B3'')) (journal_alertes s6)))"
proof (cases io)
  case Nil
  show ?thesis unfolding Nil by code_simp
next
  case (Cons b r)
  show ?thesis unfolding Cons by (cases b) (simp_all only:, code_simp+)
qed

end
